theory Spec2Isabelle
  imports Main "HOL-Library.Word"
begin

section \<open>JavaScript strings\<close>

text \<open>
  A JavaScript string is a sequence of UTF-16 code units. A regular expression without
  the \<^verbatim>\<open>u\<close> flag and \<^verbatim>\<open>String.prototype.trim\<close> both work on code units, and
  \<^verbatim>\<open>length\<close> counts them.
\<close>

type_synonym jschar = "16 word"
type_synonym jsstring = "jschar list"

text \<open>An ASCII literal of the program text, as a JavaScript string.\<close>

definition lit :: "string \<Rightarrow> jsstring" where
  "lit s = map (\<lambda>c. of_char c) s"

text \<open>
  The class \<^verbatim>\<open>\s\<close> of a regular expression and the characters stripped by
  \<^verbatim>\<open>trim()\<close> are the same set in ECMAScript: WhiteSpace (TAB, VT, FF, SP, NBSP, ZWNBSP
  and the Unicode category Zs) together with LineTerminator (LF, CR, LS, PS).
\<close>

definition is_space :: "jschar \<Rightarrow> bool" where
  "is_space c \<longleftrightarrow>
     c = 0x0009 \<or> c = 0x000A \<or> c = 0x000B \<or> c = 0x000C \<or> c = 0x000D \<or> c = 0x0020 \<or>
     c = 0x00A0 \<or> c = 0x1680 \<or> (0x2000 \<le> c \<and> c \<le> 0x200A) \<or> c = 0x2028 \<or> c = 0x2029 \<or>
     c = 0x202F \<or> c = 0x205F \<or> c = 0x3000 \<or> c = 0xFEFF"

text \<open>The class \<^verbatim>\<open>\d\<close>: the ten ASCII digits.\<close>

definition is_digit :: "jschar \<Rightarrow> bool" where
  "is_digit c \<longleftrightarrow> 0x30 \<le> c \<and> c \<le> 0x39"

text \<open>\<^verbatim>\<open>s.trim()\<close>: white space is removed from both ends.\<close>

definition trim :: "jsstring \<Rightarrow> jsstring" where
  "trim s = rev (dropWhile is_space (rev (dropWhile is_space s)))"

section \<open>Regular expressions\<close>

text \<open>
  The two patterns of the program are built from character classes, concatenation and
  the quantifiers \<^verbatim>\<open>+\<close> and \<^verbatim>\<open>{n,}\<close>. \<open>Null\<close>, \<open>Eps\<close> and \<open>Alt\<close> only arise
  while matching. A pattern anchored by \<^verbatim>\<open>^\<close> and \<^verbatim>\<open>$\<close> (no \<^verbatim>\<open>m\<close> flag) has to
  match the whole input, so \<^verbatim>\<open>test\<close> decides membership in the pattern's language;
  here it is computed with derivatives.
\<close>

datatype rexp =
    Null
  | Eps
  | Atom "jschar \<Rightarrow> bool"
  | Alt rexp rexp
  | Cat rexp rexp
  | AtLeast nat rexp

abbreviation Plus :: "rexp \<Rightarrow> rexp" where
  "Plus r \<equiv> AtLeast 1 r"

fun nullable :: "rexp \<Rightarrow> bool" where
  "nullable Null = False"
| "nullable Eps = True"
| "nullable (Atom p) = False"
| "nullable (Alt r s) = (nullable r \<or> nullable s)"
| "nullable (Cat r s) = (nullable r \<and> nullable s)"
| "nullable (AtLeast n r) = (n = 0 \<or> nullable r)"

fun deriv :: "jschar \<Rightarrow> rexp \<Rightarrow> rexp" where
  "deriv c Null = Null"
| "deriv c Eps = Null"
| "deriv c (Atom p) = (if p c then Eps else Null)"
| "deriv c (Alt r s) = Alt (deriv c r) (deriv c s)"
| "deriv c (Cat r s) =
     (if nullable r then Alt (Cat (deriv c r) s) (deriv c s) else Cat (deriv c r) s)"
| "deriv c (AtLeast n r) = Cat (deriv c r) (AtLeast (n - 1) r)"

fun test :: "rexp \<Rightarrow> jsstring \<Rightarrow> bool" where
  "test r [] = nullable r"
| "test r (c # cs) = test (deriv c r) cs"

section \<open>Validator\<close>

text \<open>
  \<^verbatim>\<open>const emailRegex = /^[^\s@]+@[^\s@]+\.[^\s@]+$/;\<close>
  \<^verbatim>\<open>const phoneRegex = /^[\d\s\-\+\(\)]{10,}$/;\<close>
\<close>

definition not_space_at :: "jschar \<Rightarrow> bool" where
  "not_space_at c \<longleftrightarrow> \<not> (is_space c \<or> c = 0x40)"

definition phone_char :: "jschar \<Rightarrow> bool" where
  "phone_char c \<longleftrightarrow> is_digit c \<or> is_space c \<or> c = 0x2D \<or> c = 0x2B \<or> c = 0x28 \<or> c = 0x29"

definition emailRegex :: rexp where
  "emailRegex =
     Cat (Plus (Atom not_space_at))
      (Cat (Atom (\<lambda>c. c = 0x40))
        (Cat (Plus (Atom not_space_at))
          (Cat (Atom (\<lambda>c. c = 0x2E))
            (Plus (Atom not_space_at)))))"

definition phoneRegex :: rexp where
  "phoneRegex = AtLeast 10 (Atom phone_char)"

definition validateEmail :: "jsstring \<Rightarrow> bool" where
  "validateEmail email = test emailRegex email"

definition validatePhone :: "jsstring \<Rightarrow> bool" where
  "validatePhone phone = test phoneRegex phone"

section \<open>Contact store (mock backend)\<close>

text \<open>
  The object that \<^verbatim>\<open>createContact\<close> receives is the form's \<^verbatim>\<open>formData\<close>: the four
  string fields below. A stored contact is that object with two more fields,
  \<^verbatim>\<open>{ _id: ..., ...contactData, createdAt: ... }\<close>; the field \<^verbatim>\<open>_id\<close> is \<open>c_id\<close> here.
  As \<open>form_data\<close> has neither of the two keys, the spread overwrites nothing.
\<close>

record form_data =
  name :: jsstring
  email :: jsstring
  phone :: jsstring
  message :: jsstring

record contact = form_data +
  c_id :: jsstring
  createdAt :: jsstring

record status =
  success :: bool

record 'a response = status +
  data :: 'a

record api =
  api_contacts :: "contact list"

text \<open>
  \<^verbatim>\<open>Date.now().toString()\<close>: the clock reading is an integral number of milliseconds
  (at most 8.64e15 in absolute value), which \<^verbatim>\<open>toString\<close> prints in decimal without an
  exponent.
\<close>

fun digits :: "nat \<Rightarrow> jsstring" where
  "digits n = (if n < 10 then [of_nat (48 + n)] else digits (n div 10) @ [of_nat (48 + n mod 10)])"

definition Number_toString :: "int \<Rightarrow> jsstring" where
  "Number_toString i = (if i < 0 then 0x2D # digits (nat (- i)) else digits (nat i))"

text \<open>
  The clock is read by the store, not passed to it: \<open>now\<close> is the value of
  \<^verbatim>\<open>Date.now()\<close> and \<open>stamp\<close> the value of \<^verbatim>\<open>new Date().toISOString()\<close> at the call.
  The simulated latency (a fixed sleep before each operation) changes no value.
\<close>

definition createContact :: "form_data \<Rightarrow> int \<Rightarrow> jsstring \<Rightarrow> api \<Rightarrow> contact response \<times> api" where
  "createContact contactData now stamp this =
     (let newContact =
            \<lparr>name = name contactData, email = email contactData, phone = phone contactData,
             message = message contactData,
             c_id = Number_toString now, createdAt = stamp\<rparr>
      in (\<lparr>success = True, data = newContact\<rparr>,
          this\<lparr>api_contacts := api_contacts this @ [newContact]\<rparr>))"

definition getContacts :: "api \<Rightarrow> contact list response \<times> api" where
  "getContacts this = (\<lparr>success = True, data = rev (api_contacts this)\<rparr>, this)"

definition deleteContact :: "jsstring \<Rightarrow> api \<Rightarrow> status \<times> api" where
  "deleteContact ident this =
     (\<lparr>success = True\<rparr>,
      this\<lparr>api_contacts := filter (\<lambda>c. c_id c \<noteq> ident) (api_contacts this)\<rparr>)"

text \<open>Sequences of store operations, from the empty store \<^verbatim>\<open>contacts: []\<close>.\<close>

datatype api_op = Create form_data int jsstring | Delete jsstring

fun api_step :: "api \<Rightarrow> api_op \<Rightarrow> api" where
  "api_step this (Create contactData now stamp) = snd (createContact contactData now stamp this)"
| "api_step this (Delete ident) = snd (deleteContact ident this)"

definition api_init :: api where
  "api_init = \<lparr>api_contacts = []\<rparr>"

definition api_run :: "api_op list \<Rightarrow> api" where
  "api_run ops = foldl api_step api_init ops"

text \<open>The clock readings of the creates of a sequence, in order.\<close>

fun clock_readings :: "api_op list \<Rightarrow> int list" where
  "clock_readings [] = []"
| "clock_readings (Create contactData now stamp # ops) = now # clock_readings ops"
| "clock_readings (Delete ident # ops) = clock_readings ops"

section \<open>Form state manager\<close>

text \<open>
  The keys of the error object are the \<^verbatim>\<open>name\<close> attributes of the four inputs.
  \<^verbatim>\<open>Object.keys\<close> lists the keys that are present (in insertion order in JavaScript; the
  program only takes the length).
\<close>

datatype field = Name | Email | Phone | Message

type_synonym error_map = "field \<rightharpoonup> jsstring"

definition Object_keys :: "error_map \<Rightarrow> field list" where
  "Object_keys obj = filter (\<lambda>k. obj k \<noteq> None) [Name, Email, Phone, Message]"

record app_state =
  formData :: form_data
  errors :: error_map
  contacts :: "contact list"
  loading :: bool
  submitting :: bool
  showSuccess :: bool

definition empty_form :: form_data where
  "empty_form = \<lparr>name = [], email = [], phone = [], message = []\<rparr>"

definition app_init :: app_state where
  "app_init = \<lparr>formData = empty_form, errors = Map.empty, contacts = [],
                loading = False, submitting = False, showSuccess = False\<rparr>"

text \<open>The three blocks of \<^verbatim>\<open>validateForm\<close>, each adding at most one entry.\<close>

definition validateForm :: "app_state \<Rightarrow> bool \<times> app_state" where
  "validateForm st =
     (let newErrors = Map.empty;
          newErrors =
            (if trim (name (formData st)) = [] then newErrors(Name \<mapsto> lit ''Name is required'')
             else if length (trim (name (formData st))) < 2
               then newErrors(Name \<mapsto> lit ''Name must be at least 2 characters'')
             else newErrors);
          newErrors =
            (if trim (email (formData st)) = [] then newErrors(Email \<mapsto> lit ''Email is required'')
             else if \<not> validateEmail (email (formData st))
               then newErrors(Email \<mapsto> lit ''Please enter a valid email address'')
             else newErrors);
          newErrors =
            (if trim (phone (formData st)) = [] then newErrors(Phone \<mapsto> lit ''Phone number is required'')
             else if \<not> validatePhone (phone (formData st))
               then newErrors(Phone \<mapsto> lit ''Please enter a valid phone number (at least 10 digits)'')
             else newErrors)
      in (length (Object_keys newErrors) = 0, st\<lparr>errors := newErrors\<rparr>))"

definition handleBlur :: "field \<Rightarrow> app_state \<Rightarrow> app_state" where
  "handleBlur field st =
     (let newErrors = errors st;
          newErrors =
            (if field = Name then
               (if trim (name (formData st)) = [] then newErrors(Name \<mapsto> lit ''Name is required'')
                else if length (trim (name (formData st))) < 2
                  then newErrors(Name \<mapsto> lit ''Name must be at least 2 characters'')
                else newErrors(Name := None))
             else newErrors);
          newErrors =
            (if field = Email then
               (if trim (email (formData st)) = [] then newErrors(Email \<mapsto> lit ''Email is required'')
                else if \<not> validateEmail (email (formData st))
                  then newErrors(Email \<mapsto> lit ''Please enter a valid email address'')
                else newErrors(Email := None))
             else newErrors);
          newErrors =
            (if field = Phone then
               (if trim (phone (formData st)) = [] then newErrors(Phone \<mapsto> lit ''Phone number is required'')
                else if \<not> validatePhone (phone (formData st))
                  then newErrors(Phone \<mapsto> lit ''Please enter a valid phone number (at least 10 digits)'')
                else newErrors(Phone := None))
             else newErrors)
      in st\<lparr>errors := newErrors\<rparr>)"

text \<open>\<^verbatim>\<open>{ ...prev, [name]: value }\<close> on the form's object.\<close>

fun set_field :: "field \<Rightarrow> jsstring \<Rightarrow> form_data \<Rightarrow> form_data" where
  "set_field Name value prev = prev\<lparr>name := value\<rparr>"
| "set_field Email value prev = prev\<lparr>email := value\<rparr>"
| "set_field Phone value prev = prev\<lparr>phone := value\<rparr>"
| "set_field Message value prev = prev\<lparr>message := value\<rparr>"

text \<open>
  \<^verbatim>\<open>if (errors[name])\<close>, with the input's name as \<open>key\<close>, holds when the key is
  present with a non-empty string: \<^verbatim>\<open>undefined\<close> and the empty string are both falsy.
\<close>

definition truthy :: "jsstring option \<Rightarrow> bool" where
  "truthy v = (case v of None \<Rightarrow> False | Some s \<Rightarrow> s \<noteq> [])"

definition handleChange :: "field \<Rightarrow> jsstring \<Rightarrow> app_state \<Rightarrow> app_state" where
  "handleChange key value st =
     (let st' = st\<lparr>formData := set_field key value (formData st)\<rparr>
      in if truthy (errors st key) then st'\<lparr>errors := (errors st')(key \<mapsto> [])\<rparr> else st')"

text \<open>
  \<^verbatim>\<open>isFormValid\<close> is computed at each render and only used for its truth value
  (\<^verbatim>\<open>disabled={!isFormValid || submitting}\<close>); its first operand is the trimmed name,
  truthy when it is not empty.
\<close>

definition isFormValid :: "app_state \<Rightarrow> bool" where
  "isFormValid st \<longleftrightarrow>
     trim (name (formData st)) \<noteq> [] \<and>
     validateEmail (email (formData st)) \<and>
     validatePhone (phone (formData st)) \<and>
     length (Object_keys (errors st)) = 0"

text \<open>
  \<^verbatim>\<open>handleSubmit\<close> on the component's state and the store. The store never throws, so
  the \<^verbatim>\<open>catch\<close> branch is not reached; \<^verbatim>\<open>finally\<close> resets \<open>submitting\<close>. The timer
  that hides the success message three seconds later is a later event.
\<close>

definition handleSubmit :: "int \<Rightarrow> jsstring \<Rightarrow> app_state \<times> api \<Rightarrow> app_state \<times> api" where
  "handleSubmit now stamp w =
     (let (st, store) = w;
          (valid, st1) = validateForm st
      in if \<not> valid then (st1, store)
         else
           let st2 = st1\<lparr>submitting := True\<rparr>;
               (response, store') = createContact (formData st) now stamp store;
               st3 = (if success response
                      then st2\<lparr>contacts := data response # contacts st2,
                               formData := empty_form,
                               errors := Map.empty,
                               showSuccess := True\<rparr>
                      else st2)
           in (st3\<lparr>submitting := False\<rparr>, store'))"

text \<open>Form events: typing into a field and leaving it.\<close>

datatype form_event = Change field jsstring | Blur field

fun form_step :: "app_state \<Rightarrow> form_event \<Rightarrow> app_state" where
  "form_step st (Change key value) = handleChange key value st"
| "form_step st (Blur field) = handleBlur field st"

definition form_run :: "form_event list \<Rightarrow> app_state" where
  "form_run evs = foldl form_step app_init evs"

section \<open>Example values\<close>

text \<open>A draft that passes every check, a clock reading and its ISO form.\<close>

definition draft_Jo :: form_data where
  "draft_Jo = \<lparr>name = lit ''Jo'', email = lit ''jo@x.com'', phone = lit ''1234567890'', message = []\<rparr>"

definition stamp0 :: jsstring where
  "stamp0 = lit ''2024-10-27T03:33:20.000Z''"

definition store_Jo :: api where
  "store_Jo = snd (createContact draft_Jo 1730000000000 stamp0 api_init)"

text \<open>The same draft with a one-letter name, in a form that has not been touched otherwise.\<close>

definition state_Jo :: app_state where
  "state_Jo = app_init\<lparr>formData := draft_Jo\<rparr>"

definition state_J :: app_state where
  "state_J = app_init\<lparr>formData := draft_Jo\<lparr>name := lit ''J''\<rparr>\<rparr>"

text \<open>The user enters the name field and leaves it empty.\<close>

definition state_required :: app_state where
  "state_required = handleBlur Name app_init"

text \<open>
  The user fills in name and email, leaves the phone field empty, then comes back to it
  and types a valid number; the focus is still in the phone field.
\<close>

definition stale_events :: "form_event list" where
  "stale_events =
     [Change Name (lit ''Jo''), Blur Name, Change Email (lit ''jo@x.com''), Blur Email,
      Blur Phone, Change Phone (lit ''1234567890'')]"

fun is_Change :: "form_event \<Rightarrow> bool" where
  "is_Change (Change key value) = True"
| "is_Change (Blur field) = False"

section \<open>The languages of the patterns\<close>

definition conc :: "jsstring set \<Rightarrow> jsstring set \<Rightarrow> jsstring set" where
  "conc A B = {u @ v | u v. u \<in> A \<and> v \<in> B}"

inductive_set star :: "jsstring set \<Rightarrow> jsstring set" for A :: "jsstring set" where
  star_nil: "[] \<in> star A"
| star_app: "u \<in> A \<Longrightarrow> v \<in> star A \<Longrightarrow> u @ v \<in> star A"

primrec reps :: "nat \<Rightarrow> jsstring set \<Rightarrow> jsstring set" where
  "reps 0 A = star A"
| "reps (Suc n) A = conc A (reps n A)"

fun lang :: "rexp \<Rightarrow> jsstring set" where
  "lang Null = {}"
| "lang Eps = {[]}"
| "lang (Atom p) = {[c] | c. p c}"
| "lang (Alt r s) = lang r \<union> lang s"
| "lang (Cat r s) = conc (lang r) (lang s)"
| "lang (AtLeast n r) = reps n (lang r)"

declare digits.simps [simp del]

section \<open>Matching decides the language\<close>

lemma conc_nil: "[] \<in> conc A B \<longleftrightarrow> [] \<in> A \<and> [] \<in> B"
  by (auto simp: conc_def)

lemma conc_cons:
  "c # w \<in> conc A B \<longleftrightarrow>
     (\<exists>u v. w = u @ v \<and> c # u \<in> A \<and> v \<in> B) \<or> ([] \<in> A \<and> c # w \<in> B)"
  by (auto simp: conc_def Cons_eq_append_conv)

lemma star_cons_split:
  assumes "x \<in> star A" and "x = c # w"
  shows "\<exists>u v. w = u @ v \<and> c # u \<in> A \<and> v \<in> star A"
  using assms
proof (induction arbitrary: w rule: star.induct)
  case star_nil
  then show ?case by simp
next
  case (star_app u v)
  show ?case
  proof (cases u)
    case Nil
    with star_app show ?thesis by simp
  next
    case (Cons d u')
    with star_app.prems have "d = c" and "w = u' @ v" by simp_all
    with Cons star_app.hyps show ?thesis by blast
  qed
qed

lemma star_cons:
  "c # w \<in> star A \<longleftrightarrow> (\<exists>u v. w = u @ v \<and> c # u \<in> A \<and> v \<in> star A)"
proof
  assume "c # w \<in> star A"
  then show "\<exists>u v. w = u @ v \<and> c # u \<in> A \<and> v \<in> star A"
    by (rule star_cons_split) simp
next
  assume "\<exists>u v. w = u @ v \<and> c # u \<in> A \<and> v \<in> star A"
  then obtain u v where "w = u @ v" "c # u \<in> A" "v \<in> star A" by blast
  then show "c # w \<in> star A"
    using star_app [of "c # u" A v] by simp
qed

lemma reps_nil: "[] \<in> reps n A \<longleftrightarrow> n = 0 \<or> [] \<in> A"
  by (induction n) (auto simp: conc_nil star_nil)

lemma reps_pred: "[] \<in> A \<Longrightarrow> v \<in> reps (n - 1) A \<Longrightarrow> v \<in> reps n A"
  by (cases n) (auto simp: conc_def)

lemma reps_cons:
  "c # w \<in> reps n A \<longleftrightarrow> (\<exists>u v. w = u @ v \<and> c # u \<in> A \<and> v \<in> reps (n - 1) A)"
proof (induction n)
  case 0
  show ?case by (simp add: star_cons)
next
  case (Suc n)
  show ?case
  proof
    assume "c # w \<in> reps (Suc n) A"
    then consider (head) u v where "w = u @ v" "c # u \<in> A" "v \<in> reps n A"
      | (skip) "[] \<in> A" "c # w \<in> reps n A"
      by (auto simp: conc_cons)
    then show "\<exists>u v. w = u @ v \<and> c # u \<in> A \<and> v \<in> reps (Suc n - 1) A"
    proof cases
      case head
      then show ?thesis by auto
    next
      case skip
      with Suc obtain u v where "w = u @ v" "c # u \<in> A" "v \<in> reps (n - 1) A" by blast
      with skip(1) show ?thesis using reps_pred [of A v n] by auto
    qed
  next
    assume "\<exists>u v. w = u @ v \<and> c # u \<in> A \<and> v \<in> reps (Suc n - 1) A"
    then show "c # w \<in> reps (Suc n) A" by (auto simp: conc_cons)
  qed
qed

lemma nullable_lang: "nullable r \<longleftrightarrow> [] \<in> lang r"
  by (induction r) (auto simp: conc_nil reps_nil)

lemma conc_mem: "w \<in> conc A B \<longleftrightarrow> (\<exists>u v. w = u @ v \<and> u \<in> A \<and> v \<in> B)"
  by (auto simp: conc_def)

lemma deriv_lang: "w \<in> lang (deriv c r) \<longleftrightarrow> c # w \<in> lang r"
proof (induction r arbitrary: w)
  case (Cat r s)
  have left: "w \<in> conc (lang (deriv c r)) (lang s) \<longleftrightarrow>
      (\<exists>u v. w = u @ v \<and> c # u \<in> lang r \<and> v \<in> lang s)"
    by (simp add: conc_mem Cat.IH(1))
  show ?case
    by (simp add: nullable_lang left Cat.IH(2) conc_cons)
next
  case (AtLeast n r)
  show ?case
    by (simp add: conc_mem AtLeast.IH reps_cons)
qed auto

lemma test_lang: "test r s \<longleftrightarrow> s \<in> lang r"
  by (induction s arbitrary: r) (auto simp: nullable_lang deriv_lang)

lemma reps_atoms:
  "s \<in> reps n {[c] | c. p c} \<longleftrightarrow> n \<le> length s \<and> list_all p s"
proof (induction s arbitrary: n)
  case Nil
  show ?case by (simp add: reps_nil)
next
  case (Cons c s)
  have "c # s \<in> reps n {[c] | c. p c} \<longleftrightarrow> p c \<and> s \<in> reps (n - 1) {[c] | c. p c}"
    by (auto simp: reps_cons)
  then show ?case using Cons [of "n - 1"] by auto
qed

lemma validatePhone_iff: "validatePhone s \<longleftrightarrow> 10 \<le> length s \<and> list_all phone_char s"
  by (simp add: validatePhone_def phoneRegex_def test_lang reps_atoms)

section \<open>What the two patterns accept\<close>

lemma dropWhile_all: "(\<forall>x \<in> set (dropWhile P s). P x) \<longleftrightarrow> (\<forall>x \<in> set s. P x)"
  by (induction s) auto

lemma trim_eq_Nil: "trim s = [] \<longleftrightarrow> list_all is_space s"
  by (simp add: trim_def dropWhile_all list_all_iff)

lemma lang_atoms: "lang (AtLeast n (Atom p)) = {s. n \<le> length s \<and> list_all p s}"
  by (auto simp: reps_atoms)

lemma lang_char: "lang (Atom (\<lambda>c. c = k)) = {[k]}"
  by auto

lemma lang_Cat: "s \<in> lang (Cat r1 r2) \<longleftrightarrow> (\<exists>u v. s = u @ v \<and> u \<in> lang r1 \<and> v \<in> lang r2)"
  by (simp add: conc_mem)

lemma lang_plus: "x \<in> lang (Plus (Atom p)) \<longleftrightarrow> x \<noteq> [] \<and> list_all p x"
  unfolding lang_atoms by (cases x) simp_all

lemma email_shape: "validateEmail s \<longleftrightarrow>
      (\<exists>a r1. s = a @ r1 \<and> (a \<noteq> [] \<and> list_all not_space_at a) \<and>
        (\<exists>x r2. r1 = x @ r2 \<and> x \<in> {[0x40]} \<and>
          (\<exists>b r3. r2 = b @ r3 \<and> (b \<noteq> [] \<and> list_all not_space_at b) \<and>
            (\<exists>y c. r3 = y @ c \<and> y \<in> {[0x2E]} \<and> (c \<noteq> [] \<and> list_all not_space_at c)))))"
    unfolding validateEmail_def emailRegex_def test_lang lang_Cat lang_plus lang_char
    by (rule refl)


lemma validateEmail_iff:
  "validateEmail s \<longleftrightarrow>
     (\<exists>a b c. s = a @ 0x40 # b @ 0x2E # c \<and> a \<noteq> [] \<and> b \<noteq> [] \<and> c \<noteq> [] \<and>
        list_all not_space_at a \<and> list_all not_space_at b \<and> list_all not_space_at c)"
proof
  assume "validateEmail s"
  then obtain a r1 x r2 b r3 y c where
    "s = a @ r1" "r1 = x @ r2" "x \<in> {[0x40]}" "r2 = b @ r3" "r3 = y @ c" "y \<in> {[0x2E]}"
    and "a \<noteq> []" "list_all not_space_at a" "b \<noteq> []" "list_all not_space_at b"
      "c \<noteq> []" "list_all not_space_at c"
    unfolding email_shape by (elim exE conjE)
  then have "s = a @ 0x40 # b @ 0x2E # c \<and> a \<noteq> [] \<and> b \<noteq> [] \<and> c \<noteq> [] \<and>
        list_all not_space_at a \<and> list_all not_space_at b \<and> list_all not_space_at c"
    by simp
  then show "\<exists>a b c. s = a @ 0x40 # b @ 0x2E # c \<and> a \<noteq> [] \<and> b \<noteq> [] \<and> c \<noteq> [] \<and>
        list_all not_space_at a \<and> list_all not_space_at b \<and> list_all not_space_at c"
    by (intro exI)
next
  assume "\<exists>a b c. s = a @ 0x40 # b @ 0x2E # c \<and> a \<noteq> [] \<and> b \<noteq> [] \<and> c \<noteq> [] \<and>
        list_all not_space_at a \<and> list_all not_space_at b \<and> list_all not_space_at c"
  then obtain a b c where s: "s = a @ 0x40 # b @ 0x2E # c"
    and ne: "a \<noteq> []" "b \<noteq> []" "c \<noteq> []"
    and ok: "list_all not_space_at a" "list_all not_space_at b" "list_all not_space_at c"
    by blast
  have 1: "\<exists>y c'. 0x2E # c = y @ c' \<and> y \<in> {[0x2E]} \<and> (c' \<noteq> [] \<and> list_all not_space_at c')"
    using ne ok by simp
  have 2: "\<exists>b' r3. b @ 0x2E # c = b' @ r3 \<and> (b' \<noteq> [] \<and> list_all not_space_at b') \<and>
            (\<exists>y c'. r3 = y @ c' \<and> y \<in> {[0x2E]} \<and> (c' \<noteq> [] \<and> list_all not_space_at c'))"
    using 1 ne ok by blast
  have 3: "\<exists>x r2. 0x40 # b @ 0x2E # c = x @ r2 \<and> x \<in> {[0x40]} \<and>
          (\<exists>b' r3. r2 = b' @ r3 \<and> (b' \<noteq> [] \<and> list_all not_space_at b') \<and>
            (\<exists>y c'. r3 = y @ c' \<and> y \<in> {[0x2E]} \<and> (c' \<noteq> [] \<and> list_all not_space_at c')))"
    using 2 by simp
  show "validateEmail s"
    unfolding email_shape s using 3 ne ok by blast
qed

lemma validateEmail_trim: "validateEmail s \<Longrightarrow> trim s \<noteq> []"
proof
  assume "validateEmail s" and "trim s = []"
  then obtain a b where "s = a @ b" "a \<noteq> []" "list_all not_space_at a"
    unfolding validateEmail_iff by blast
  moreover from \<open>trim s = []\<close> have "list_all is_space s" by (simp add: trim_eq_Nil)
  ultimately show False
    by (cases a) (auto simp: not_space_at_def)
qed

section \<open>Decimal identifiers\<close>

lemma digit_char_inj:
  assumes "a < 10" "b < 10" "(of_nat (48 + a) :: jschar) = of_nat (48 + b)"
  shows "a = b"
proof -
  from assms(3) have "a mod 2 ^ 16 = b mod 2 ^ 16"
    by (simp add: word_of_nat_eq_iff take_bit_eq_mod)
  with assms(1,2) show ?thesis by simp
qed

lemma digits_nonempty: "digits n \<noteq> []"
  by (subst digits.simps) simp

lemma digits_small: "n < 10 \<Longrightarrow> digits n = [of_nat (48 + n)]"
  by (subst digits.simps) simp

lemma digits_large: "\<not> n < 10 \<Longrightarrow> digits n = digits (n div 10) @ [of_nat (48 + n mod 10)]"
  by (subst digits.simps) simp

lemma digits_length: "length (digits n) = 1 \<longleftrightarrow> n < 10"
proof (cases "n < 10")
  case True
  then show ?thesis by (simp add: digits_small)
next
  case False
  moreover have "length (digits (n div 10)) \<noteq> 0" using digits_nonempty by simp
  ultimately show ?thesis by (simp add: digits_large)
qed

lemma digits_inj: "digits m = digits n \<Longrightarrow> m = n"
proof (induction m arbitrary: n rule: digits.induct)
  case (1 m)
  show ?case
  proof (cases "m < 10")
    case True
    with "1.prems" have "n < 10" using digits_length [of m] digits_length [of n] by simp
    with True "1.prems" show ?thesis
      by (auto simp: digits_small dest: digit_char_inj)
  next
    case False
    with "1.prems" have n: "\<not> n < 10" using digits_length [of m] digits_length [of n] by simp
    from "1.prems" False n
    have eq: "digits (m div 10) = digits (n div 10)"
      and last: "(of_nat (48 + m mod 10) :: jschar) = of_nat (48 + n mod 10)"
      by (simp_all add: digits_large)
    from "1.IH" [OF False eq] have "m div 10 = n div 10" .
    moreover from last have "m mod 10 = n mod 10"
      by (rule digit_char_inj [rotated 2]) simp_all
    ultimately show ?thesis
      by (metis div_mult_mod_eq)
  qed
qed

lemma digits_are_digits: "c \<in> set (digits n) \<Longrightarrow> is_digit c"
proof (induction n rule: digits.induct)
  case (1 n)
  have d: "is_digit (of_nat (48 + k))" if "k < 10" for k
  proof -
    from that have "k \<in> {0,1,2,3,4,5,6,7,8,9}" by auto
    then show ?thesis by (auto simp: is_digit_def)
  qed
  show ?case
  proof (cases "n < 10")
    case True
    with "1.prems" d show ?thesis by (auto simp: digits_small)
  next
    case False
    with "1.prems" "1.IH" d [of "n mod 10"] show ?thesis by (auto simp: digits_large)
  qed
qed

lemma Number_toString_inj: "Number_toString i = Number_toString j \<Longrightarrow> i = j"
proof -
  assume eq: "Number_toString i = Number_toString j"
  have no_minus: "digits k \<noteq> 0x2D # w" for k w
  proof
    assume "digits k = 0x2D # w"
    then have "0x2D \<in> set (digits k)" by simp
    then have "is_digit 0x2D" by (rule digits_are_digits)
    then show False by (simp add: is_digit_def)
  qed
  show "i = j"
  proof (cases "i < 0"; cases "j < 0")
    assume "i < 0" "j < 0"
    with eq have "nat (- i) = nat (- j)"
      by (auto simp: Number_toString_def dest: digits_inj)
    with \<open>i < 0\<close> \<open>j < 0\<close> show ?thesis by simp
  next
    assume "i < 0" "\<not> j < 0"
    with eq no_minus [of "nat j" "digits (nat (- i))"] show ?thesis
      by (simp add: Number_toString_def)
  next
    assume "\<not> i < 0" "j < 0"
    with eq no_minus [of "nat i" "digits (nat (- j))"] show ?thesis
      by (simp add: Number_toString_def)
  next
    assume "\<not> i < 0" "\<not> j < 0"
    with eq have "nat i = nat j"
      by (auto simp: Number_toString_def dest: digits_inj)
    with \<open>\<not> i < 0\<close> \<open>\<not> j < 0\<close> show ?thesis by simp
  qed
qed

lemma Number_toString_example: "Number_toString 1730000000000 = lit ''1730000000000''"
  by (simp add: Number_toString_def digits_small digits_large lit_def)

section \<open>Contact store: creation and listing\<close>

lemma createContact_fst:
  "fst (createContact contactData now stamp this) =
     \<lparr>success = True,
      data = \<lparr>name = name contactData, email = email contactData, phone = phone contactData,
              message = message contactData, c_id = Number_toString now, createdAt = stamp\<rparr>\<rparr>"
  by (simp add: createContact_def Let_def)

lemma createContact_snd:
  "api_contacts (snd (createContact contactData now stamp this)) =
     api_contacts this @
       [\<lparr>name = name contactData, email = email contactData, phone = phone contactData,
         message = message contactData, c_id = Number_toString now, createdAt = stamp\<rparr>]"
  by (simp add: createContact_def Let_def)

lemma deleteContact_snd:
  "api_contacts (snd (deleteContact ident this)) = filter (\<lambda>c. c_id c \<noteq> ident) (api_contacts this)"
  by (simp add: deleteContact_def)

lemma getContacts_fst: "data (fst (getContacts this)) = rev (api_contacts this)"
  by (simp add: getContacts_def)

text \<open>
  C9. \<^verbatim>\<open>createContact\<close> copies the draft's name, email, phone and message unchanged
  (nothing is trimmed or normalised) into the contact it returns; without its two added
  fields, the identifier and \<open>createdAt\<close>, the contact is the draft again; and the
  returned contact is the one appended to the store.
\<close>

theorem createContact_verbatim:
  "name (data (fst (createContact contactData now stamp this))) = name contactData \<and>
   email (data (fst (createContact contactData now stamp this))) = email contactData \<and>
   phone (data (fst (createContact contactData now stamp this))) = phone contactData \<and>
   message (data (fst (createContact contactData now stamp this))) = message contactData \<and>
   form_data.truncate (data (fst (createContact contactData now stamp this))) = contactData \<and>
   c_id (data (fst (createContact contactData now stamp this))) = Number_toString now \<and>
   createdAt (data (fst (createContact contactData now stamp this))) = stamp \<and>
   api_contacts (snd (createContact contactData now stamp this)) =
     api_contacts this @ [data (fst (createContact contactData now stamp this))]"
  by (simp add: createContact_fst createContact_snd form_data.truncate_def)

text \<open>
  C3, as the code has it. After a create, \<^verbatim>\<open>getContacts()\<close> returns the created
  contact first, followed by what it returned before: the store's collection in reverse
  insertion order. The created contact occurs once more than it did in the store, so
  exactly once when no stored contact has its identifier. After two creates in a row the
  second create's contact is first and the first create's is second.
\<close>

theorem create_then_list:
  assumes "createContact d1 now1 stamp1 this = (r1, this1)"
    and "createContact d2 now2 stamp2 this1 = (r2, this2)"
  shows "data (fst (getContacts this)) = rev (api_contacts this) \<and>
         data (fst (getContacts this1)) = data r1 # data (fst (getContacts this)) \<and>
         hd (data (fst (getContacts this1))) = data r1 \<and>
         count_list (data (fst (getContacts this1))) (data r1) =
           1 + count_list (api_contacts this) (data r1) \<and>
         (c_id (data r1) \<notin> c_id ` set (api_contacts this) \<longrightarrow>
            count_list (data (fst (getContacts this1))) (data r1) = 1) \<and>
         data (fst (getContacts this2)) = data r2 # data r1 # data (fst (getContacts this))"
proof -
  from assms(1) have r1: "r1 = fst (createContact d1 now1 stamp1 this)"
    and t1: "this1 = snd (createContact d1 now1 stamp1 this)" by simp_all
  from assms(2) have r2: "r2 = fst (createContact d2 now2 stamp2 this1)"
    and t2: "this2 = snd (createContact d2 now2 stamp2 this1)" by simp_all
  have l1: "data (fst (getContacts this1)) = data r1 # rev (api_contacts this)"
    by (simp add: getContacts_fst t1 r1 createContact_fst createContact_snd)
  have l2: "data (fst (getContacts this2)) = data r2 # data r1 # rev (api_contacts this)"
    by (simp add: getContacts_fst t2 r2 createContact_fst createContact_snd l1 [unfolded getContacts_fst])
  have absent: "count_list (api_contacts this) (data r1) = 0"
    if "c_id (data r1) \<notin> c_id ` set (api_contacts this)"
    using that by (auto simp: count_list_0_iff)
  show ?thesis
    using absent by (simp add: getContacts_fst l1 [unfolded getContacts_fst] l2 [unfolded getContacts_fst])
qed

theorem create_then_list_witness:
  "createContact draft_Jo 1730000000000 stamp0 api_init =
     (fst (createContact draft_Jo 1730000000000 stamp0 api_init), store_Jo) \<and>
   createContact (draft_Jo\<lparr>name := lit ''Al''\<rparr>) 1730000000500 stamp0 store_Jo =
     (fst (createContact (draft_Jo\<lparr>name := lit ''Al''\<rparr>) 1730000000500 stamp0 store_Jo),
      snd (createContact (draft_Jo\<lparr>name := lit ''Al''\<rparr>) 1730000000500 stamp0 store_Jo)) \<and>
   c_id (data (fst (createContact draft_Jo 1730000000000 stamp0 api_init))) \<notin>
     c_id ` set (api_contacts api_init) \<and>
   count_list (data (fst (getContacts store_Jo)))
     (data (fst (createContact draft_Jo 1730000000000 stamp0 api_init))) = 1 \<and>
   map name (data (fst (getContacts
     (snd (createContact (draft_Jo\<lparr>name := lit ''Al''\<rparr>) 1730000000500 stamp0 store_Jo))))) =
     [lit ''Al'', lit ''Jo'']"
proof -
  have c1: "createContact draft_Jo 1730000000000 stamp0 api_init =
     (fst (createContact draft_Jo 1730000000000 stamp0 api_init), store_Jo)"
    by (simp add: store_Jo_def)
  have c2: "createContact (draft_Jo\<lparr>name := lit ''Al''\<rparr>) 1730000000500 stamp0 store_Jo =
     (fst (createContact (draft_Jo\<lparr>name := lit ''Al''\<rparr>) 1730000000500 stamp0 store_Jo),
      snd (createContact (draft_Jo\<lparr>name := lit ''Al''\<rparr>) 1730000000500 stamp0 store_Jo))"
    by simp
  have fresh: "c_id (data (fst (createContact draft_Jo 1730000000000 stamp0 api_init))) \<notin>
     c_id ` set (api_contacts api_init)"
    by (simp add: api_init_def)
  from create_then_list [OF c1 c2] fresh c1 c2 show ?thesis
    by (simp add: createContact_fst getContacts_fst api_init_def draft_Jo_def)
qed

text \<open>
  C3 as stated fails when the store already holds a contact equal to the created one:
  the same draft created twice at the same clock reading is listed twice.
\<close>

theorem create_then_list_counterexample:
  "count_list
     (data (fst (getContacts (snd (createContact draft_Jo 1730000000000 stamp0 store_Jo)))))
     (data (fst (createContact draft_Jo 1730000000000 stamp0 store_Jo))) = 2"
  by (simp add: getContacts_fst createContact_fst createContact_snd store_Jo_def api_init_def)

section \<open>Contact store: identifiers\<close>

lemma foldl_api_step_distinct:
  "distinct (map c_id (api_contacts this)) \<Longrightarrow> distinct (clock_readings ops) \<Longrightarrow>
   set (map c_id (api_contacts this)) \<inter> Number_toString ` set (clock_readings ops) = {} \<Longrightarrow>
   distinct (map c_id (api_contacts (foldl api_step this ops)))"
proof (induction ops arbitrary: this)
  case Nil
  then show ?case by simp
next
  case (Cons op ops)
  show ?case
  proof (cases op)
    case (Create contactData now stamp)
    let ?this' = "snd (createContact contactData now stamp this)"
    have ids: "map c_id (api_contacts ?this') = map c_id (api_contacts this) @ [Number_toString now]"
      by (simp add: createContact_snd)
    from Cons.prems Create have fresh: "Number_toString now \<notin> set (map c_id (api_contacts this))"
      by auto
    from Cons.prems(2) Create have rest: "now \<notin> set (clock_readings ops)" "distinct (clock_readings ops)"
      by simp_all
    have "Number_toString now \<notin> Number_toString ` set (clock_readings ops)"
      using rest(1) by (auto dest: Number_toString_inj)
    with Cons.prems(3) Create
    have disj: "set (map c_id (api_contacts ?this')) \<inter> Number_toString ` set (clock_readings ops) = {}"
      unfolding ids by auto
    have "distinct (map c_id (api_contacts ?this'))"
      unfolding ids using Cons.prems(1) fresh by simp
    from Cons.IH [OF this rest(2) disj] Create show ?thesis by simp
  next
    case (Delete ident)
    let ?this' = "snd (deleteContact ident this)"
    have sub: "set (map c_id (api_contacts ?this')) \<subseteq> set (map c_id (api_contacts this))"
      by (auto simp: deleteContact_snd)
    have "distinct (map c_id (api_contacts ?this'))"
      using Cons.prems(1) by (simp add: deleteContact_snd distinct_map_filter)
    moreover from Cons.prems(2) Delete have "distinct (clock_readings ops)" by simp
    moreover from Cons.prems(3) Delete
    have "set (map c_id (api_contacts this)) \<inter> Number_toString ` set (clock_readings ops) = {}"
      by simp
    with sub
    have "set (map c_id (api_contacts ?this')) \<inter> Number_toString ` set (clock_readings ops) = {}"
      by blast
    ultimately show ?thesis using Cons.IH [of ?this'] Delete by simp
  qed
qed

text \<open>
  C7, as the code has it. The identifier is the decimal string of the clock reading of
  the create. In every store state reached from the empty store by creates and deletes
  whose creates read pairwise different clock values, the stored contacts have pairwise
  different identifiers.
\<close>

theorem identifiers_distinct:
  "distinct (clock_readings ops) \<Longrightarrow> distinct (map c_id (api_contacts (api_run ops)))"
  unfolding api_run_def
  by (rule foldl_api_step_distinct) (simp_all add: api_init_def)

theorem identifiers_distinct_witness:
  "distinct (clock_readings
      [Create draft_Jo 1730000000000 stamp0, Create draft_Jo 1730000000500 stamp0,
       Delete (lit ''1730000000000''), Create draft_Jo 1730000001000 stamp0]) \<and>
   distinct (map c_id (api_contacts (api_run
      [Create draft_Jo 1730000000000 stamp0, Create draft_Jo 1730000000500 stamp0,
       Delete (lit ''1730000000000''), Create draft_Jo 1730000001000 stamp0])))"
  using identifiers_distinct
    [of "[Create draft_Jo 1730000000000 stamp0, Create draft_Jo 1730000000500 stamp0,
       Delete (lit ''1730000000000''), Create draft_Jo 1730000001000 stamp0]"]
  by simp

text \<open>
  C7 as stated fails: two creates that read the same clock value store two contacts with
  the same identifier.
\<close>

theorem identifiers_collide_counterexample:
  "\<not> distinct (map c_id (api_contacts (api_run
      [Create draft_Jo 1730000000000 stamp0, Create draft_Jo 1730000000000 stamp0])))"
  by (simp add: api_run_def api_init_def createContact_snd)

section \<open>Contact store: deletion\<close>

text \<open>
  C4. \<^verbatim>\<open>deleteContact(id)\<close> reports success for every id, keeps exactly the entries whose
  identifier differs from \<open>id\<close>, so that no entry with that identifier is left, also in
  what \<^verbatim>\<open>getContacts()\<close> returns after the first call; a second call reports success
  again and leaves the store as the first call left it.
\<close>

theorem deleteContact_idempotent:
  "success (fst (deleteContact ident this)) = True \<and>
   api_contacts (snd (deleteContact ident this)) = filter (\<lambda>c. c_id c \<noteq> ident) (api_contacts this) \<and>
   ident \<notin> c_id ` set (api_contacts (snd (deleteContact ident this))) \<and>
   success (fst (deleteContact ident (snd (deleteContact ident this)))) = True \<and>
   snd (deleteContact ident (snd (deleteContact ident this))) = snd (deleteContact ident this) \<and>
   ident \<notin> c_id ` set (data (fst (getContacts (snd (deleteContact ident this)))))"
  by (auto simp: deleteContact_def getContacts_def)

section \<open>Phone numbers without digits\<close>

text \<open>
  C10. \<^verbatim>\<open>validatePhone\<close> accepts inputs that contain no digit: ten hyphens are accepted,
  and so is every string of at least ten characters made only of spaces, hyphens, plus
  signs and parentheses. The pattern checks the characters and the length; it does not
  count digits.
\<close>

theorem validatePhone_without_digits:
  "validatePhone (lit ''----------'') \<and> \<not> list_ex is_digit (lit ''----------'') \<and>
   (\<forall>s. 10 \<le> length s \<and> set s \<subseteq> set (lit '' -+()'') \<longrightarrow>
        validatePhone s \<and> \<not> list_ex is_digit s)"
proof (intro conjI allI impI)
  show "validatePhone (lit ''----------'')"
    by (simp add: validatePhone_iff lit_def phone_char_def)
  show "\<not> list_ex is_digit (lit ''----------'')"
    by (simp add: lit_def is_digit_def)
next
  fix s :: jsstring
  assume a: "10 \<le> length s \<and> set s \<subseteq> set (lit '' -+()'')"
  then have chars: "\<forall>c \<in> set s. c = 0x20 \<or> c = 0x2D \<or> c = 0x2B \<or> c = 0x28 \<or> c = 0x29"
    by (auto simp: lit_def)
  have "list_all phone_char s"
    unfolding list_all_iff
  proof
    fix c assume "c \<in> set s"
    with chars have "c = 0x20 \<or> c = 0x2D \<or> c = 0x2B \<or> c = 0x28 \<or> c = 0x29" by blast
    then show "phone_char c"
      by (auto simp: phone_char_def is_space_def)
  qed
  with a show "validatePhone s" by (simp add: validatePhone_iff)
  show "\<not> list_ex is_digit s"
    unfolding list_ex_iff
  proof
    assume "\<exists>c \<in> set s. is_digit c"
    then obtain c where "c \<in> set s" "is_digit c" by blast
    with chars have "c = 0x20 \<or> c = 0x2D \<or> c = 0x2B \<or> c = 0x28 \<or> c = 0x29" by blast
    with \<open>is_digit c\<close> show False
      by (auto simp: is_digit_def)
  qed
qed

theorem validatePhone_without_digits_witness:
  "10 \<le> length (lit ''(+) - (+) - (+)'') \<and>
   set (lit ''(+) - (+) - (+)'') \<subseteq> set (lit '' -+()'') \<and>
   validatePhone (lit ''(+) - (+) - (+)'') \<and>
   \<not> list_ex is_digit (lit ''(+) - (+) - (+)'')"
proof -
  have h: "10 \<le> length (lit ''(+) - (+) - (+)'') \<and>
      set (lit ''(+) - (+) - (+)'') \<subseteq> set (lit '' -+()'')"
    by (simp add: lit_def)
  from validatePhone_without_digits
  have "10 \<le> length (lit ''(+) - (+) - (+)'') \<and>
      set (lit ''(+) - (+) - (+)'') \<subseteq> set (lit '' -+()'') \<longrightarrow>
      validatePhone (lit ''(+) - (+) - (+)'') \<and> \<not> list_ex is_digit (lit ''(+) - (+) - (+)'')"
    by blast
  with h show ?thesis by blast
qed

section \<open>Form state: evaluation of the examples\<close>

lemma field_cases: "(\<forall>k::field. P k) \<longleftrightarrow> P Name \<and> P Email \<and> P Phone \<and> P Message"
  by (metis field.exhaust)

lemma Object_keys_Nil: "Object_keys obj = [] \<longleftrightarrow> dom obj = {}"
proof -
  have "dom obj = {} \<longleftrightarrow> (\<forall>k. obj k = None)" by auto
  then show ?thesis
    by (simp add: Object_keys_def field_cases filter_empty_conv)
qed

lemma lit_eq_Nil: "lit s = [] \<longleftrightarrow> s = []"
  by (simp add: lit_def)

lemma length_lit: "length (lit s) = length s"
  by (simp add: lit_def)

lemma trim_Nil: "trim [] = []"
  by (simp add: trim_def)

lemma trim_examples:
  "trim (lit ''Jo'') = lit ''Jo''" "trim (lit ''J'') = lit ''J''"
  "trim (lit ''jo@x.com'') = lit ''jo@x.com''" "trim (lit ''1234567890'') = lit ''1234567890''"
  by (simp_all add: trim_def lit_def is_space_def)

lemma valid_examples:
  "validateEmail (lit ''jo@x.com'')" "validatePhone (lit ''1234567890'')"
   apply (simp add: validateEmail_def emailRegex_def lit_def not_space_at_def is_space_def)
  apply (simp add: validatePhone_iff phone_char_def is_digit_def lit_def)
  done

lemmas examples = trim_Nil trim_examples valid_examples lit_eq_Nil length_lit

lemma stale_state:
  "form_run stale_events = app_init\<lparr>formData := draft_Jo, errors := [Phone \<mapsto> []]\<rparr>"
  by (simp add: form_run_def stale_events_def handleBlur_def handleChange_def Let_def
      app_init_def empty_form_def draft_Jo_def truthy_def examples)

section \<open>The submit-enabling predicate\<close>

text \<open>
  C1. \<^verbatim>\<open>isFormValid\<close> holds exactly when the trimmed name is not empty, the email
  passes \<^verbatim>\<open>validateEmail\<close>, the phone passes \<^verbatim>\<open>validatePhone\<close> and the error object
  has no key. In any state, if leaving out one of the four conditions does not change
  the value, then the other three imply the one left out in that state.
\<close>

theorem isFormValid_iff:
  "(isFormValid st \<longleftrightarrow>
      trim (name (formData st)) \<noteq> [] \<and> validateEmail (email (formData st)) \<and>
      validatePhone (phone (formData st)) \<and> dom (errors st) = {}) \<and>
   ((isFormValid st \<longleftrightarrow>
       validateEmail (email (formData st)) \<and> validatePhone (phone (formData st)) \<and>
       dom (errors st) = {}) \<longrightarrow>
    (validateEmail (email (formData st)) \<and> validatePhone (phone (formData st)) \<and>
       dom (errors st) = {} \<longrightarrow> trim (name (formData st)) \<noteq> [])) \<and>
   ((isFormValid st \<longleftrightarrow>
       trim (name (formData st)) \<noteq> [] \<and> validatePhone (phone (formData st)) \<and>
       dom (errors st) = {}) \<longrightarrow>
    (trim (name (formData st)) \<noteq> [] \<and> validatePhone (phone (formData st)) \<and>
       dom (errors st) = {} \<longrightarrow> validateEmail (email (formData st)))) \<and>
   ((isFormValid st \<longleftrightarrow>
       trim (name (formData st)) \<noteq> [] \<and> validateEmail (email (formData st)) \<and>
       dom (errors st) = {}) \<longrightarrow>
    (trim (name (formData st)) \<noteq> [] \<and> validateEmail (email (formData st)) \<and>
       dom (errors st) = {} \<longrightarrow> validatePhone (phone (formData st)))) \<and>
   ((isFormValid st \<longleftrightarrow>
       trim (name (formData st)) \<noteq> [] \<and> validateEmail (email (formData st)) \<and>
       validatePhone (phone (formData st))) \<longrightarrow>
    (trim (name (formData st)) \<noteq> [] \<and> validateEmail (email (formData st)) \<and>
       validatePhone (phone (formData st)) \<longrightarrow> dom (errors st) = {}))"
proof -
  have main: "isFormValid st \<longleftrightarrow>
      trim (name (formData st)) \<noteq> [] \<and> validateEmail (email (formData st)) \<and>
      validatePhone (phone (formData st)) \<and> dom (errors st) = {}"
    by (simp only: isFormValid_def length_0_conv Object_keys_Nil)
  show ?thesis
    unfolding main by blast
qed

theorem isFormValid_iff_witness:
  "isFormValid state_Jo \<and> trim (name (formData state_Jo)) \<noteq> [] \<and>
   validateEmail (email (formData state_Jo)) \<and> validatePhone (phone (formData state_Jo)) \<and>
   dom (errors state_Jo) = {}"
proof -
  have "trim (name (formData state_Jo)) \<noteq> [] \<and>
   validateEmail (email (formData state_Jo)) \<and> validatePhone (phone (formData state_Jo)) \<and>
   dom (errors state_Jo) = {}"
    by (simp add: state_Jo_def app_init_def draft_Jo_def examples)
  with isFormValid_iff [of state_Jo] show ?thesis by blast
qed

text \<open>
  None of the four conditions follows from the other three: each can fail alone (a name
  of two spaces, an email without a dot after the at-sign, a phone of three digits, an
  error object with one key).
\<close>

lemma isFormValid_conjuncts_needed:
  "\<not> isFormValid (state_Jo\<lparr>formData := draft_Jo\<lparr>name := lit ''  ''\<rparr>\<rparr>) \<and>
   \<not> isFormValid (state_Jo\<lparr>formData := draft_Jo\<lparr>email := lit ''jo@x''\<rparr>\<rparr>) \<and>
   \<not> isFormValid (state_Jo\<lparr>formData := draft_Jo\<lparr>phone := lit ''123''\<rparr>\<rparr>) \<and>
   \<not> isFormValid (state_Jo\<lparr>errors := [Phone \<mapsto> []]\<rparr>) \<and>
   isFormValid state_Jo"
proof -
  have 1: "trim (lit ''  '') = []"
    by (simp add: trim_def lit_def is_space_def)
  have 2: "\<not> validateEmail (lit ''jo@x'')"
    by (simp add: validateEmail_def emailRegex_def lit_def not_space_at_def is_space_def)
  have 3: "\<not> validatePhone (lit ''123'')"
    by (simp add: validatePhone_iff length_lit)
  have 4: "dom [Phone \<mapsto> ([] :: jsstring)] \<noteq> {}"
    by simp
  show ?thesis
    unfolding isFormValid_def length_0_conv Object_keys_Nil
    using 1 2 3 4 by (simp add: state_Jo_def app_init_def draft_Jo_def examples)
qed

section \<open>Validation of the whole form\<close>

lemma validateForm_snd: "snd (validateForm st) = st\<lparr>errors := errors (snd (validateForm st))\<rparr>"
  by (simp add: validateForm_def Let_def)

lemma validateForm_Name:
  "errors (snd (validateForm st)) Name =
     (if trim (name (formData st)) = [] then Some (lit ''Name is required'')
      else if length (trim (name (formData st))) < 2
        then Some (lit ''Name must be at least 2 characters'')
      else None)"
  by (simp add: validateForm_def Let_def)

lemma validateForm_Email:
  "errors (snd (validateForm st)) Email =
     (if trim (email (formData st)) = [] then Some (lit ''Email is required'')
      else if \<not> validateEmail (email (formData st))
        then Some (lit ''Please enter a valid email address'')
      else None)"
  by (simp add: validateForm_def Let_def)

lemma validateForm_Phone:
  "errors (snd (validateForm st)) Phone =
     (if trim (phone (formData st)) = [] then Some (lit ''Phone number is required'')
      else if \<not> validatePhone (phone (formData st))
        then Some (lit ''Please enter a valid phone number (at least 10 digits)'')
      else None)"
  by (simp add: validateForm_def Let_def)

lemma validateForm_Message: "errors (snd (validateForm st)) Message = None"
  by (simp add: validateForm_def Let_def)

lemma validateForm_fst: "fst (validateForm st) \<longleftrightarrow> dom (errors (snd (validateForm st))) = {}"
proof -
  have "fst (validateForm st) \<longleftrightarrow> Object_keys (errors (snd (validateForm st))) = []"
    by (simp add: validateForm_def Let_def)
  then show ?thesis by (simp only: Object_keys_Nil)
qed

lemma validateForm_formData: "formData (snd (validateForm st)) = formData st"
  by (simp add: validateForm_def Let_def)

lemma dom_empty_fields:
  "dom (m :: error_map) = {} \<longleftrightarrow> m Name = None \<and> m Email = None \<and> m Phone = None \<and> m Message = None"
proof -
  have "dom m = {} \<longleftrightarrow> (\<forall>k. m k = None)" by auto
  then show ?thesis by (simp only: field_cases)
qed

lemma validateForm_accepts:
  "dom (errors (snd (validateForm st))) = {} \<longleftrightarrow>
     2 \<le> length (trim (name (formData st))) \<and> validateEmail (email (formData st)) \<and>
     trim (phone (formData st)) \<noteq> [] \<and> validatePhone (phone (formData st))"
proof -
  have n: "errors (snd (validateForm st)) Name = None \<longleftrightarrow> 2 \<le> length (trim (name (formData st)))"
    by (auto simp: validateForm_Name)
  have e: "errors (snd (validateForm st)) Email = None \<longleftrightarrow> validateEmail (email (formData st))"
    using validateEmail_trim [of "email (formData st)"] by (auto simp: validateForm_Email)
  have p: "errors (snd (validateForm st)) Phone = None \<longleftrightarrow>
      trim (phone (formData st)) \<noteq> [] \<and> validatePhone (phone (formData st))"
    by (auto simp: validateForm_Phone)
  show ?thesis
    unfolding dom_empty_fields n e p by (simp add: validateForm_Message)
qed

lemma validateForm_isFormValid:
  "dom (errors (snd (validateForm st))) = {} \<longleftrightarrow> isFormValid (snd (validateForm st))"
proof
  assume "dom (errors (snd (validateForm st))) = {}"
  with validateForm_accepts [of st]
  have "2 \<le> length (trim (name (formData st)))" "validateEmail (email (formData st))"
    "validatePhone (phone (formData st))" "dom (errors (snd (validateForm st))) = {}"
    by blast+
  moreover from this(1) have "trim (name (formData st)) \<noteq> []" by auto
  ultimately show "isFormValid (snd (validateForm st))"
    unfolding isFormValid_def length_0_conv Object_keys_Nil validateForm_formData
    by blast
next
  assume "isFormValid (snd (validateForm st))"
  then show "dom (errors (snd (validateForm st))) = {}"
    by (simp only: isFormValid_def length_0_conv Object_keys_Nil)
qed



text \<open>
  A one-letter name in an untouched form passes \<^verbatim>\<open>isFormValid\<close>, which only asks for a
  non-empty name, and is rejected by \<^verbatim>\<open>validateForm\<close>.
\<close>

lemma lighter_check_example: "isFormValid state_J \<and> \<not> fst (validateForm state_J)"
proof -
  have "isFormValid state_J"
    unfolding isFormValid_def length_0_conv Object_keys_Nil
    by (simp add: state_J_def app_init_def draft_Jo_def examples)
  moreover have "errors (snd (validateForm state_J)) Name \<noteq> None"
    unfolding validateForm_Name
    by (simp add: state_J_def app_init_def draft_Jo_def examples)
  then have "\<not> fst (validateForm state_J)"
    unfolding validateForm_fst by auto
  ultimately show ?thesis ..
qed


section \<open>Submission\<close>

text \<open>Every call of \<^verbatim>\<open>createContact\<close> makes the store's collection longer.\<close>

lemma createContact_grows:
  "length (api_contacts (snd (createContact contactData now stamp this))) =
     Suc (length (api_contacts this))"
  by (simp add: createContact_snd)

lemma validateForm_contacts: "contacts (snd (validateForm st)) = contacts st"
  by (simp add: validateForm_def Let_def)

lemma handleSubmit_accepted:
  assumes "fst (validateForm st)"
  shows "api_contacts (snd (handleSubmit now stamp (st, store))) =
           api_contacts store @ [data (fst (createContact (formData st) now stamp store))] \<and>
         contacts (fst (handleSubmit now stamp (st, store))) =
           data (fst (createContact (formData st) now stamp store)) # contacts st \<and>
         formData (fst (handleSubmit now stamp (st, store))) = empty_form \<and>
         errors (fst (handleSubmit now stamp (st, store))) = Map.empty"
  using assms
  by (simp add: handleSubmit_def Let_def split_beta createContact_fst createContact_snd
      validateForm_contacts)

text \<open>
  A name typed with surrounding spaces passes \<^verbatim>\<open>validateForm\<close>, which trims before it
  checks, and reaches the store untrimmed.
\<close>

lemma untrimmed_name_is_stored:
  "fst (validateForm (state_Jo\<lparr>formData := draft_Jo\<lparr>name := lit ''  Jo ''\<rparr>\<rparr>)) \<and>
   map name (api_contacts (snd (handleSubmit 1730000000000 stamp0
     (state_Jo\<lparr>formData := draft_Jo\<lparr>name := lit ''  Jo ''\<rparr>\<rparr>, api_init)))) = [lit ''  Jo '']"
proof -
  let ?st = "state_Jo\<lparr>formData := draft_Jo\<lparr>name := lit ''  Jo ''\<rparr>\<rparr>"
  have t: "trim (lit ''  Jo '') = lit ''Jo''"
    by (simp add: trim_def lit_def is_space_def)
  have ok: "fst (validateForm ?st)"
    unfolding validateForm_fst validateForm_accepts
    by (simp add: state_Jo_def app_init_def draft_Jo_def examples t)
  from handleSubmit_accepted [OF ok, of 1730000000000 stamp0 api_init] ok show ?thesis
    by (simp add: createContact_fst api_init_def state_Jo_def draft_Jo_def)
qed

text \<open>
  C6. When \<^verbatim>\<open>validateForm\<close> rejects the draft, \<^verbatim>\<open>handleSubmit\<close> returns with the
  store as it was (whatever the clock reads: the store is not called, since a call
  would have made the collection longer) and with only the error object of the form
  changed.
\<close>

theorem handleSubmit_rejected:
  assumes "\<not> fst (validateForm st)"
  shows "handleSubmit now stamp (st, store) = (snd (validateForm st), store) \<and>
         snd (handleSubmit now stamp (st, store)) = store \<and>
         api_contacts (snd (handleSubmit now stamp (st, store))) = api_contacts store \<and>
         fst (handleSubmit now stamp (st, store)) = st\<lparr>errors := errors (snd (validateForm st))\<rparr>"
proof -
  from assms have "handleSubmit now stamp (st, store) = (snd (validateForm st), store)"
    by (simp add: handleSubmit_def Let_def split_beta)
  then show ?thesis
    using validateForm_snd [of st] by simp
qed

theorem handleSubmit_rejected_witness:
  "\<not> fst (validateForm state_J) \<and>
   length (trim (name (formData state_J))) = 1 \<and>
   handleSubmit 1730000000500 stamp0 (state_J, store_Jo) = (snd (validateForm state_J), store_Jo) \<and>
   api_contacts (snd (handleSubmit 1730000000500 stamp0 (state_J, store_Jo))) = api_contacts store_Jo"
proof -
  have rej: "\<not> fst (validateForm state_J)"
    using lighter_check_example by blast
  have "length (trim (name (formData state_J))) = 1"
    by (simp add: state_J_def app_init_def draft_Jo_def examples)
  with rej handleSubmit_rejected [OF rej, of 1730000000500 stamp0 store_Jo] show ?thesis
    by blast
qed

section \<open>Typing into a field with a recorded error\<close>

lemma state_required_eq:
  "state_required = app_init\<lparr>errors := [Name \<mapsto> lit ''Name is required'']\<rparr>"
  by (simp add: state_required_def handleBlur_def Let_def app_init_def empty_form_def trim_def)

lemma handleChange_errors:
  "errors (handleChange key value st) =
     (if truthy (errors st key) then (errors st)(key \<mapsto> []) else errors st)"
  by (simp add: handleChange_def Let_def)

lemma handleChange_formData:
  "formData (handleChange key value st) = set_field key value (formData st)"
  by (simp add: handleChange_def Let_def)

lemma handleChange_dom_mono:
  "k \<in> dom (errors st) \<Longrightarrow> k \<in> dom (errors (handleChange key value st))"
  by (auto simp: handleChange_errors)

lemma isFormValid_dom: "isFormValid st \<Longrightarrow> dom (errors st) = {}"
  by (simp only: isFormValid_def length_0_conv Object_keys_Nil)

lemma changes_dom_mono:
  "k \<in> dom (errors st) \<Longrightarrow> list_all is_Change evs \<Longrightarrow> k \<in> dom (errors (foldl form_step st evs))"
proof (induction evs arbitrary: st)
  case Nil
  then show ?case by simp
next
  case (Cons e evs)
  from Cons.prems(2) obtain key v where e: "e = Change key v"
    by (cases e) simp_all
  from Cons.prems(1) have "k \<in> dom (errors (handleChange key v st))"
    by (rule handleChange_dom_mono)
  with Cons.IH [of "handleChange key v st"] Cons.prems(2) e show ?case by simp
qed

text \<open>
  C8. A form state reachable by blur and change events has a non-empty trimmed name, an
  email and a phone that pass their checks, and still fails \<^verbatim>\<open>isFormValid\<close>: the error
  object holds the key of the phone field with the empty string. A blur of that field, or
  \<^verbatim>\<open>validateForm\<close>, makes \<^verbatim>\<open>isFormValid\<close> hold. In general \<^verbatim>\<open>handleChange\<close> on a
  field with a recorded non-empty message leaves the key in place with the empty
  string, so \<^verbatim>\<open>isFormValid\<close> fails, and it keeps failing through any further change
  events.
\<close>

theorem stale_error_key_disables_submit:
  "(\<exists>evs.
      trim (name (formData (form_run evs))) \<noteq> [] \<and>
      validateEmail (email (formData (form_run evs))) \<and>
      validatePhone (phone (formData (form_run evs))) \<and>
      errors (form_run evs) Phone = Some [] \<and>
      length (Object_keys (errors (form_run evs))) \<noteq> 0 \<and>
      \<not> isFormValid (form_run evs) \<and>
      isFormValid (form_step (form_run evs) (Blur Phone)) \<and>
      isFormValid (snd (validateForm (form_run evs)))) \<and>
   (\<forall>st key value. truthy (errors st key) \<longrightarrow>
      errors (handleChange key value st) key = Some [] \<and>
      length (Object_keys (errors (handleChange key value st))) \<noteq> 0 \<and>
      \<not> isFormValid (handleChange key value st)) \<and>
   (\<forall>st evs. dom (errors st) \<noteq> {} \<and> list_all is_Change evs \<longrightarrow>
      \<not> isFormValid (foldl form_step st evs))"
proof (intro conjI allI impI)
  let ?st = "form_run stale_events"
  have fields: "trim (name (formData ?st)) \<noteq> [] \<and> validateEmail (email (formData ?st)) \<and>
      validatePhone (phone (formData ?st))"
    by (simp add: stale_state draft_Jo_def examples)
  have key: "errors ?st Phone = Some []"
    by (simp add: stale_state)
  then have dom: "dom (errors ?st) \<noteq> {}" by auto
  then have keys: "length (Object_keys (errors ?st)) \<noteq> 0"
    by (simp only: length_0_conv Object_keys_Nil) simp
  from dom have invalid: "\<not> isFormValid ?st"
    using isFormValid_dom by blast
  have blur: "isFormValid (form_step ?st (Blur Phone))"
    unfolding isFormValid_def length_0_conv Object_keys_Nil
    by (simp add: stale_state handleBlur_def Let_def draft_Jo_def examples app_init_def)
  have "dom (errors (snd (validateForm ?st))) = {}"
    unfolding validateForm_accepts
    by (simp add: stale_state draft_Jo_def examples)
  then have submit: "isFormValid (snd (validateForm ?st))"
    by (simp only: validateForm_isFormValid)
  from fields key keys invalid blur submit
  show "\<exists>evs.
      trim (name (formData (form_run evs))) \<noteq> [] \<and>
      validateEmail (email (formData (form_run evs))) \<and>
      validatePhone (phone (formData (form_run evs))) \<and>
      errors (form_run evs) Phone = Some [] \<and>
      length (Object_keys (errors (form_run evs))) \<noteq> 0 \<and>
      \<not> isFormValid (form_run evs) \<and>
      isFormValid (form_step (form_run evs) (Blur Phone)) \<and>
      isFormValid (snd (validateForm (form_run evs)))"
    by blast
next
  fix st :: app_state and key :: field and v :: jsstring
  assume t: "truthy (errors st key)"
  then show e: "errors (handleChange key v st) key = Some []"
    by (simp add: handleChange_errors)
  then have d: "dom (errors (handleChange key v st)) \<noteq> {}" by auto
  then show "length (Object_keys (errors (handleChange key v st))) \<noteq> 0"
    by (simp only: length_0_conv Object_keys_Nil) simp
  from d show "\<not> isFormValid (handleChange key v st)"
    using isFormValid_dom by blast
next
  fix st :: app_state and evs :: "form_event list"
  assume a: "dom (errors st) \<noteq> {} \<and> list_all is_Change evs"
  then obtain k where "k \<in> dom (errors st)" by blast
  with a have "k \<in> dom (errors (foldl form_step st evs))"
    by (simp add: changes_dom_mono)
  then show "\<not> isFormValid (foldl form_step st evs)"
    using isFormValid_dom by blast
qed

theorem stale_error_key_disables_submit_witness:
  "truthy (errors state_required Name) \<and>
   errors (handleChange Name (lit ''Jo'') state_required) Name = Some [] \<and>
   \<not> isFormValid (handleChange Name (lit ''Jo'') state_required) \<and>
   dom (errors state_required) \<noteq> {} \<and>
   list_all is_Change [Change Email (lit ''jo@x.com''), Change Phone (lit ''1234567890'')] \<and>
   \<not> isFormValid (foldl form_step state_required
        [Change Email (lit ''jo@x.com''), Change Phone (lit ''1234567890'')])"
proof -
  have t: "truthy (errors state_required Name)"
    by (simp add: state_required_eq truthy_def lit_eq_Nil)
  have d: "dom (errors state_required) \<noteq> {} \<and>
      list_all is_Change [Change Email (lit ''jo@x.com''), Change Phone (lit ''1234567890'')]"
    by (simp add: state_required_eq)
  from stale_error_key_disables_submit t d show ?thesis
    by blast
qed

text \<open>
  C2 at a concrete input. After a blur of the empty name field has recorded
  "Name is required", typing a name sets the draft's name and replaces the message by
  the empty string; the key \<^verbatim>\<open>name\<close> is still among the keys of the error object.
\<close>

theorem handleChange_keeps_key:
  "errors state_required Name = Some (lit ''Name is required'') \<and>
   name (formData (handleChange Name (lit ''Jo'') state_required)) = lit ''Jo'' \<and>
   errors (handleChange Name (lit ''Jo'') state_required) Name = Some [] \<and>
   Object_keys (errors (handleChange Name (lit ''Jo'') state_required)) = [Name]"
  by (simp add: state_required_eq handleChange_errors handleChange_formData truthy_def
      lit_eq_Nil Object_keys_def)

end
